theory Spec2Isabelle
  imports Complex_Main "HOL-Library.Word" "HOL-Library.Signed_Division"
begin

section \<open>The DirectShow frame grabber: data\<close>

text \<open>
  The driver is the class \<open>DirectShowFrameGrabber\<close> of
  \<open>src/DirectShowFrameGrabber/DirectShowFrameGrabber.cpp\<close>. Its \<open>int\<close> and
  \<open>LONG\<close> members are 32 bits wide on the Windows targets of DirectShow. Members the code
  does arithmetic on (\<open>m_nFrames\<close>, \<open>m_divisor\<close>, \<open>m_sampleWidth\<close>,
  \<open>m_sampleHeight\<close>, the sample size) are 32-bit words read as two's complement; members
  that are only compared (\<open>m_desiredWidth\<close>, \<open>m_desiredHeight\<close>, image dimensions)
  are integers. The native sample time is a \<open>double\<close> that is only tested for equality;
  it is a real number here, which leaves out NaN.
\<close>

type_synonym c_int = "32 word"
type_synonym LONG = "32 word"
type_synonym BYTE = "8 word"

datatype HRESULT = S_OK | E_POINTER | E_NOTIMPL

datatype log_level = DEBUG | INFO | WARN | ERROR

type_synonym log_line = "log_level \<times> string"

text \<open>An integer division the processor cannot carry out raises a hardware exception.\<close>

datatype fault = DivideError

subsection \<open>Images\<close>

datatype ImageFormat = BGR | LUMINANCE

datatype cv_depth = CV_8U

record ImageFormatProperties =
  imageFormat :: ImageFormat
  channels :: int
  depth :: cv_depth
  bitsPerPixel :: int
  origin :: int

text \<open>
  The vision library (\<open>Vision::Image\<close>, \<open>Vision::Undistortion\<close>, OpenCV) is not part of
  the repository. An image is the term of library operations that produced it, so that
  what was applied to a published image, and how often, can be read off it. \<open>Undistort\<close>
  carries the handle of the undistorter used.
\<close>

datatype image =
    Image int int ImageFormatProperties "BYTE list"
  | UMat image
  | Resize int int image
  | Clone image
  | Undistort nat image
  | CvtColor image
  | CvtColorUMat image

fun width :: "image \<Rightarrow> int" where
  "width (Image w h f b) = w"
| "width (UMat i) = width i"
| "width (Resize w h i) = w"
| "width (Clone i) = width i"
| "width (Undistort u i) = width i"
| "width (CvtColor i) = width i"
| "width (CvtColorUMat i) = width i"

fun height :: "image \<Rightarrow> int" where
  "height (Image w h f b) = h"
| "height (UMat i) = height i"
| "height (Resize w h i) = h"
| "height (Clone i) = height i"
| "height (Undistort u i) = height i"
| "height (CvtColor i) = height i"
| "height (CvtColorUMat i) = height i"

text \<open>How many times lens undistortion was applied on the way to an image.\<close>

fun undistortions :: "image \<Rightarrow> nat" where
  "undistortions (Image w h f b) = 0"
| "undistortions (UMat i) = undistortions i"
| "undistortions (Resize w h i) = undistortions i"
| "undistortions (Clone i) = undistortions i"
| "undistortions (Undistort u i) = Suc (undistortions i)"
| "undistortions (CvtColor i) = undistortions i"
| "undistortions (CvtColorUMat i) = undistortions i"


text \<open>
  What the code asks the library at run time: whether an image lives on the GPU
  (\<open>getImageState\<close> is \<open>OnCPUGPU\<close> or \<open>OnGPU\<close>) and whether the OpenCL manager is
  initialised.
\<close>

record vision =
  imageOnGPU :: "image \<Rightarrow> bool"
  oclIsInitialized :: bool

subsection \<open>The component\<close>

record grabber =
  m_running :: bool
  m_sampleWidth :: LONG
  m_sampleHeight :: LONG
  m_divisor :: c_int
  m_desiredWidth :: int
  m_desiredHeight :: int
  m_desiredName :: string
  m_desiredDevicePath :: string
  m_nFrames :: c_int
  m_lastTime :: real
  m_autoGPUUpload :: bool
  m_undistorter :: nat
  m_outPort_isConnected :: bool
  m_colorOutPort_isConnected :: bool
  m_outPortRAW_isConnected :: bool

text \<open>
  The member initialisers of the constructor; \<open>m_running\<close> is false until \<open>start\<close>.
  The attributes read from the configuration overwrite \<open>m_divisor\<close>,
  \<open>m_desiredWidth\<close>, \<open>m_desiredHeight\<close>, \<open>m_desiredName\<close> and
  \<open>m_desiredDevicePath\<close>.
\<close>

definition constructed :: grabber where
  "constructed =
     \<lparr> m_running = False, m_sampleWidth = 0, m_sampleHeight = 0, m_divisor = 1,
       m_desiredWidth = 320, m_desiredHeight = 240, m_desiredName = [],
       m_desiredDevicePath = [], m_nFrames = 0, m_lastTime = - 10000000000,
       m_autoGPUUpload = False, m_undistorter = 0, m_outPort_isConnected = False,
       m_colorOutPort_isConnected = False, m_outPortRAW_isConnected = False \<rparr>"

record IMediaSample =
  GetSize :: LONG
  GetPointer :: "BYTE list option"

section \<open>handleFrame\<close>

record frame_outputs =
  frame :: image
  sentOutputRAW :: "image option"
  sentColorOutput :: "image option"
  sentOutput :: "image option"

definition handleFrame :: "vision \<Rightarrow> grabber \<Rightarrow> image \<Rightarrow> frame_outputs" where
  "handleFrame lib s bufferImage0 =
     (let bufferImage =
            (if m_autoGPUUpload s \<and> oclIsInitialized lib then UMat bufferImage0
             else bufferImage0);
          pColorImage0 =
            (if (0 < m_desiredWidth s \<and> 0 < m_desiredHeight s) \<and>
                (m_desiredWidth s < width bufferImage \<or> m_desiredHeight s < height bufferImage)
             then Some (Resize (m_desiredWidth s) (m_desiredHeight s) bufferImage)
             else None);
          raw = (if m_outPortRAW_isConnected s then Some (Clone bufferImage) else None);
          pColorImage =
            (if m_colorOutPort_isConnected s
             then Some (Undistort (m_undistorter s)
                          (case pColorImage0 of Some c \<Rightarrow> c | None \<Rightarrow> bufferImage))
             else pColorImage0);
          bColorImageDistorted = (\<not> m_colorOutPort_isConnected s);
          color = (if m_colorOutPort_isConnected s then pColorImage else None);
          grey =
            (if m_outPort_isConnected s
             then (let src = (case pColorImage of Some c \<Rightarrow> c | None \<Rightarrow> bufferImage);
                       pGreyImage = (if imageOnGPU lib src then CvtColorUMat src
                                     else CvtColor src)
                   in Some (if bColorImageDistorted
                            then Undistort (m_undistorter s) pGreyImage
                            else pGreyImage))
             else None)
      in \<lparr> frame = bufferImage, sentOutputRAW = raw, sentColorOutput = color,
           sentOutput = grey \<rparr>)"

section \<open>SampleCB\<close>

text \<open>
  C++ \<open>%\<close> truncates towards zero. A zero divisor, and \<open>INT_MIN % -1\<close> (the word
  \<open>0x80000000\<close> is \<open>INT_MIN\<close>), are undefined in C++ and raise the divide exception
  of the processor.
\<close>

definition c_rem :: "c_int \<Rightarrow> c_int \<Rightarrow> fault + c_int" where
  "c_rem a b =
     (if b = 0 \<or> (a = 0x80000000 \<and> b = - 1) then Inl DivideError
      else Inr (word_of_int (sint a smod sint b)))"

record callback_result =
  hresult :: HRESULT
  after :: grabber
  logged :: "log_line list"
  handled :: "frame_outputs option"

definition SampleCB_fmt :: ImageFormatProperties where
  "SampleCB_fmt =
     \<lparr> imageFormat = BGR, channels = 3, depth = CV_8U, bitsPerPixel = 24, origin = 1 \<rparr>"

text \<open>
  The callback of the sample grabber. \<open>++m_nFrames\<close> wraps at 32 bits. The translation
  of the native time to the local time line (the stateful \<open>TimestampSync\<close>, plus
  \<open>m_timeOffset\<close>) only labels the measurements and is left out.
\<close>

definition SampleCB :: "vision \<Rightarrow> grabber \<Rightarrow> real \<Rightarrow> IMediaSample \<Rightarrow> fault + callback_result" where
  "SampleCB lib s Time pSample =
     (let log0 = [(DEBUG, ''SampleCB called'')] in
      if Time = m_lastTime s
      then Inr \<lparr> hresult = S_OK, after = s,
                 logged = log0 @ [(INFO, ''Got double frame'')], handled = None \<rparr>
      else
        (let s1 = s\<lparr> m_lastTime := Time \<rparr> in
         if \<not> m_running s1
         then Inr \<lparr> hresult = S_OK, after = s1, logged = log0, handled = None \<rparr>
         else
           (let s2 = s1\<lparr> m_nFrames := m_nFrames s1 + 1 \<rparr> in
            case c_rem (m_nFrames s2) (m_divisor s2) of
              Inl f \<Rightarrow> Inl f
            | Inr r \<Rightarrow>
                if r \<noteq> 0
                then Inr \<lparr> hresult = S_OK, after = s2, logged = log0, handled = None \<rparr>
                else if GetSize pSample <s m_sampleWidth s2 * m_sampleHeight s2 * 3
                then Inr \<lparr> hresult = S_OK, after = s2,
                           logged = log0 @ [(INFO, ''Invalid sample size'')],
                           handled = None \<rparr>
                else
                  (case GetPointer pSample of
                     None \<Rightarrow>
                       Inr \<lparr> hresult = S_OK, after = s2,
                             logged = log0 @ [(INFO, ''GetPointer failed'')],
                             handled = None \<rparr>
                   | Some pBuffer \<Rightarrow>
                       (let bufferImage =
                              Image (sint (m_sampleWidth s2)) (sint (m_sampleHeight s2))
                                SampleCB_fmt pBuffer
                        in Inr \<lparr> hresult = S_OK, after = s2, logged = log0,
                                 handled = Some (handleFrame lib s2 bufferImage) \<rparr>)))))"

text \<open>
  The capture subsystem calls \<open>SampleCB\<close> once per sample, one call after the other. A
  delivery is the list of the (time, sample) pairs; a fault ends it.
\<close>

fun deliver :: "vision \<Rightarrow> grabber \<Rightarrow> (real \<times> IMediaSample) list \<Rightarrow> fault + callback_result list" where
  "deliver lib s [] = Inr []"
| "deliver lib s ((Time, pSample) # rest) =
     (case SampleCB lib s Time pSample of
        Inl f \<Rightarrow> Inl f
      | Inr r \<Rightarrow>
          (case deliver lib (after r) rest of
             Inl f \<Rightarrow> Inl f
           | Inr rs \<Rightarrow> Inr (r # rs)))"

section \<open>initGraph: choosing the capture device\<close>

text \<open>
  \<open>strstr (haystack, needle)\<close> of the C library, as the truth value of its result: does
  the needle occur in the haystack. The empty needle occurs everywhere.
\<close>

fun starts_with :: "string \<Rightarrow> string \<Rightarrow> bool" where
  "starts_with hay [] = True"
| "starts_with [] (n # ns) = False"
| "starts_with (h # hs) (n # ns) = (h = n \<and> starts_with hs ns)"

fun strstr :: "string \<Rightarrow> string \<Rightarrow> bool" where
  "strstr [] needle = (needle = [])"
| "strstr (h # hs) needle = (starts_with (h # hs) needle \<or> strstr hs needle)"

text \<open>
  What the enumerator yields for one device: the moniker, and the property bag when
  \<open>BindToStorage\<close> succeeds. \<open>sDevicePath\<close> is the content of the buffer of that name
  after the read of \<open>DevicePath\<close>; the code uses the buffer whether or not the read
  succeeded. \<open>Description\<close> and \<open>FriendlyName\<close> are \<open>None\<close> when the read fails.
\<close>

record IPropertyBag =
  sDevicePath :: string
  Description :: "string option"
  FriendlyName :: "string option"

record IMoniker =
  moniker :: nat
  BindToStorage :: "IPropertyBag option"

record selection =
  pSelectedMoniker :: "IMoniker option"
  sSelectedCamera :: string

datatype exception = UBITRACK_THROW string

text \<open>The \<open>while\<close> loop over the enumerator; \<open>break\<close> returns the selection.\<close>

fun enumerate_devices :: "string \<Rightarrow> string \<Rightarrow> IMoniker list \<Rightarrow> selection \<Rightarrow> selection" where
  "enumerate_devices desiredName desiredDevicePath [] sel = sel"
| "enumerate_devices desiredName desiredDevicePath (pMoniker # rest) sel =
     (let sel1 = (if pSelectedMoniker sel = None
                  then sel\<lparr> pSelectedMoniker := Some pMoniker \<rparr> else sel)
      in case BindToStorage pMoniker of
           None \<Rightarrow> enumerate_devices desiredName desiredDevicePath rest sel1
         | Some pPropBag \<Rightarrow>
             (case (case Description pPropBag of
                      Some n \<Rightarrow> Some n
                    | None \<Rightarrow> FriendlyName pPropBag) of
                None \<Rightarrow> enumerate_devices desiredName desiredDevicePath rest sel1
              | Some sName \<Rightarrow>
                  if desiredName \<noteq> [] \<and> strstr sName desiredName
                  then (if desiredDevicePath = []
                        then \<lparr> pSelectedMoniker = Some pMoniker, sSelectedCamera = sName \<rparr>
                        else if strstr (sDevicePath pPropBag) desiredDevicePath
                        then \<lparr> pSelectedMoniker = Some pMoniker, sSelectedCamera = sName \<rparr>
                        else enumerate_devices desiredName desiredDevicePath rest sel1)
                  else enumerate_devices desiredName desiredDevicePath rest sel1))"

text \<open>
  The loop and the test after it, for an enumerator that exists and yields the given
  monikers.
\<close>

definition select_device :: "grabber \<Rightarrow> IMoniker list \<Rightarrow> exception + selection" where
  "select_device s devices =
     (let sel = enumerate_devices (m_desiredName s) (m_desiredDevicePath s) devices
                  \<lparr> pSelectedMoniker = None, sSelectedCamera = [] \<rparr>
      in if pSelectedMoniker sel = None
         then Inl (UBITRACK_THROW ''No video capture device found'')
         else Inr sel)"

text \<open>
  \<open>initGraph\<close> does not test the result of \<open>CreateClassEnumerator\<close> and calls
  \<open>pEnum->Next\<close> on the enumerator that call left. The enumerator is \<open>None\<close> when none
  was obtained: the creation failed, or the category has no device and the system left a
  null enumerator. The call through the null pointer is undefined in C++; it is an access
  violation here, and nothing is thrown.
\<close>

datatype crash = AccessViolation

definition initGraph_device :: "grabber \<Rightarrow> IMoniker list option \<Rightarrow> crash + (exception + selection)" where
  "initGraph_device s pEnum =
     (case pEnum of
        None \<Rightarrow> Inl AccessViolation
      | Some devices \<Rightarrow> Inr (select_device s devices))"

text \<open>
  The name the loop reads for a device, and the test under which the loop takes a device
  and leaves: both are the conditions of the loop body, named for the theorems.
\<close>

definition device_name :: "IMoniker \<Rightarrow> string option" where
  "device_name d =
     (case BindToStorage d of
        None \<Rightarrow> None
      | Some bag \<Rightarrow> (case Description bag of Some n \<Rightarrow> Some n | None \<Rightarrow> FriendlyName bag))"

definition name_matches :: "string \<Rightarrow> IMoniker \<Rightarrow> bool" where
  "name_matches desiredName d =
     (case device_name d of None \<Rightarrow> False | Some n \<Rightarrow> desiredName \<noteq> [] \<and> strstr n desiredName)"

definition path_matches :: "string \<Rightarrow> IMoniker \<Rightarrow> bool" where
  "path_matches desiredDevicePath d =
     (case BindToStorage d of
        None \<Rightarrow> False
      | Some bag \<Rightarrow> desiredDevicePath = [] \<or> strstr (sDevicePath bag) desiredDevicePath)"

definition taken :: "string \<Rightarrow> string \<Rightarrow> IMoniker \<Rightarrow> bool" where
  "taken desiredName desiredDevicePath d =
     (name_matches desiredName d \<and> path_matches desiredDevicePath d)"

section \<open>initGraph: choosing the capture format\<close>

datatype media_subtype = MEDIASUBTYPE_RGB24 | MEDIASUBTYPE_YUY2 | MEDIASUBTYPE_MJPG

text \<open>
  One advertised capability: whether the major type is video and the format type is
  \<open>FORMAT_VideoInfo\<close>, the subtype, and the three fields of the video info header the
  loop reads.
\<close>

record AM_MEDIA_TYPE =
  majortype_is_Video :: bool
  formattype_is_VideoInfo :: bool
  subtype :: media_subtype
  biWidth :: int
  biHeight :: int
  AvgTimePerFrame :: int

text \<open>
  The frame rate \<open>1e7 / AvgTimePerFrame\<close> is a \<open>float\<close>; a zero divisor gives plus
  infinity. The quotient is exact here: the rounding to \<open>float\<close> is left out, so two
  rates that round to the same \<open>float\<close> are tied in the code and ordered here.
\<close>

datatype c_float = Finite real | PlusInfinity

definition fps_of :: "int \<Rightarrow> c_float" where
  "fps_of avg = (if avg = 0 then PlusInfinity else Finite (10000000 / real_of_int avg))"

fun float_less :: "c_float \<Rightarrow> c_float \<Rightarrow> bool" where
  "float_less (Finite a) (Finite b) = (a < b)"
| "float_less (Finite a) PlusInfinity = True"
| "float_less PlusInfinity b = False"

text \<open>The format last passed to \<open>SetFormat\<close>, and the local \<open>fCurrentFps\<close>.\<close>

record negotiation =
  SetFormat :: "AM_MEDIA_TYPE option"
  fCurrentFps :: c_float

fun stream_caps :: "grabber \<Rightarrow> AM_MEDIA_TYPE list \<Rightarrow> negotiation \<Rightarrow> negotiation" where
  "stream_caps s [] n = n"
| "stream_caps s (pMediaType # rest) n =
     (if \<not> majortype_is_Video pMediaType \<or> \<not> formattype_is_VideoInfo pMediaType
      then stream_caps s rest n
      else
        (let fMediaTypeFps = fps_of (AvgTimePerFrame pMediaType) in
         if (m_desiredWidth s \<le> 0 \<or> biWidth pMediaType = m_desiredWidth s) \<and>
            (m_desiredHeight s \<le> 0 \<or> biHeight pMediaType = m_desiredHeight s) \<and>
            (subtype pMediaType = MEDIASUBTYPE_RGB24 \<or> float_less (fCurrentFps n) fMediaTypeFps)
         then stream_caps s rest
                \<lparr> SetFormat = Some pMediaType,
                  fCurrentFps = fps_of (AvgTimePerFrame pMediaType) \<rparr>
         else stream_caps s rest n))"

definition negotiate_format :: "grabber \<Rightarrow> AM_MEDIA_TYPE list \<Rightarrow> negotiation" where
  "negotiate_format s caps = stream_caps s caps \<lparr> SetFormat = None, fCurrentFps = Finite 0 \<rparr>"

section \<open>Notions for the theorems\<close>

text \<open>
  A sample passes the two checks of the callback that come after the divisor: its size is
  not below the size of the negotiated format, and \<open>GetPointer\<close> succeeds.
\<close>

definition valid_sample :: "grabber \<Rightarrow> IMediaSample \<Rightarrow> bool" where
  "valid_sample s pSample =
     (\<not> GetSize pSample <s m_sampleWidth s * m_sampleHeight s * 3 \<and> GetPointer pSample \<noteq> None)"

text \<open>For each sample of a delivery, whether the callback handed it to \<open>handleFrame\<close>.\<close>

definition forwarded :: "vision \<Rightarrow> grabber \<Rightarrow> (real \<times> IMediaSample) list \<Rightarrow> fault + bool list" where
  "forwarded lib s fs =
     (case deliver lib s fs of
        Inl f \<Rightarrow> Inl f
      | Inr rs \<Rightarrow> Inr (map (\<lambda>r. handled r \<noteq> None) rs))"

text \<open>
  What can be read off a published image: the image built on the buffer of the sample
  that it comes from, the undistorters applied on the way, and the number of colour
  conversions.
\<close>

fun source :: "image \<Rightarrow> image" where
  "source (Image w h f b) = Image w h f b"
| "source (UMat i) = source i"
| "source (Resize w h i) = source i"
| "source (Clone i) = source i"
| "source (Undistort u i) = source i"
| "source (CvtColor i) = source i"
| "source (CvtColorUMat i) = source i"

fun undistorters :: "image \<Rightarrow> nat list" where
  "undistorters (Image w h f b) = []"
| "undistorters (UMat i) = undistorters i"
| "undistorters (Resize w h i) = undistorters i"
| "undistorters (Clone i) = undistorters i"
| "undistorters (Undistort u i) = u # undistorters i"
| "undistorters (CvtColor i) = undistorters i"
| "undistorters (CvtColorUMat i) = undistorters i"

fun conversions :: "image \<Rightarrow> nat" where
  "conversions (Image w h f b) = 0"
| "conversions (UMat i) = conversions i"
| "conversions (Resize w h i) = conversions i"
| "conversions (Clone i) = conversions i"
| "conversions (Undistort u i) = conversions i"
| "conversions (CvtColor i) = Suc (conversions i)"
| "conversions (CvtColorUMat i) = Suc (conversions i)"

text \<open>The conversion to grey that the code picks for an image, by where the image lives.\<close>

definition to_grey :: "vision \<Rightarrow> image \<Rightarrow> image" where
  "to_grey lib src = (if imageOnGPU lib src then CvtColorUMat src else CvtColor src)"

text \<open>The name the loop stores for a device it takes.\<close>

definition selected_name :: "IMoniker \<Rightarrow> string" where
  "selected_name d = (case device_name d of None \<Rightarrow> [] | Some n \<Rightarrow> n)"

section \<open>Concrete inputs\<close>

text \<open>A vision library without GPU, and a grabber that runs with a 2 by 2 format.\<close>

definition cpu_only :: vision where
  "cpu_only = \<lparr> imageOnGPU = (\<lambda>i. False), oclIsInitialized = False \<rparr>"

definition armed :: grabber where
  "armed = constructed\<lparr> m_running := True, m_sampleWidth := 2, m_sampleHeight := 2,
              m_divisor := 2, m_outPort_isConnected := True \<rparr>"

definition sample12 :: IMediaSample where
  "sample12 = \<lparr> GetSize = 12, GetPointer = Some (replicate 12 0) \<rparr>"

definition sample11 :: IMediaSample where
  "sample11 = \<lparr> GetSize = 11, GetPointer = Some (replicate 11 0) \<rparr>"


text \<open>What the callback returns for the first sample of a running \<open>armed\<close> grabber.\<close>

definition first_of_pair :: callback_result where
  "first_of_pair =
     \<lparr> hresult = S_OK, after = armed\<lparr> m_lastTime := 7, m_nFrames := 1 \<rparr>,
       logged = [(DEBUG, ''SampleCB called'')], handled = None \<rparr>"

text \<open>
  The second sample of a running \<open>armed\<close> grabber passes the divisor: the frame that
  \<open>handleFrame\<close> gets, and what the callback returns.
\<close>

definition second_frame :: frame_outputs where
  "second_frame =
     handleFrame cpu_only (armed\<lparr> m_lastTime := 2, m_nFrames := 2 \<rparr>)
       (Image 2 2 SampleCB_fmt (replicate 12 0))"

definition second_result :: callback_result where
  "second_result =
     \<lparr> hresult = S_OK, after = armed\<lparr> m_lastTime := 2, m_nFrames := 2 \<rparr>,
       logged = [(DEBUG, ''SampleCB called'')], handled = Some second_frame \<rparr>"

text \<open>
  A running grabber with a 640 by 480 format and consumers on the colour and the
  luminance port, about to count its second frame; and a sample of the size of that
  format.
\<close>

definition armed_vga :: grabber where
  "armed_vga = armed\<lparr> m_sampleWidth := 640, m_sampleHeight := 480, m_nFrames := 1,
                  m_lastTime := 1, m_colorOutPort_isConnected := True \<rparr>"

definition sample_vga :: IMediaSample where
  "sample_vga = \<lparr> GetSize = 921600, GetPointer = Some [] \<rparr>"

definition vga_frame :: frame_outputs where
  "vga_frame =
     handleFrame cpu_only (armed_vga\<lparr> m_lastTime := 2, m_nFrames := 2 \<rparr>)
       (Image 640 480 SampleCB_fmt [])"

definition vga_result :: callback_result where
  "vga_result =
     \<lparr> hresult = S_OK, after = armed_vga\<lparr> m_lastTime := 2, m_nFrames := 2 \<rparr>,
       logged = [(DEBUG, ''SampleCB called'')], handled = Some vga_frame \<rparr>"


definition zero_divisor :: grabber where
  "zero_divisor = armed\<lparr> m_divisor := 0 \<rparr>"

text \<open>A configuration that asks for a camera name and a device path.\<close>

definition wants :: "string \<Rightarrow> string \<Rightarrow> grabber" where
  "wants n p = constructed\<lparr> m_desiredName := n, m_desiredDevicePath := p \<rparr>"

text \<open>Three devices, each with a friendly name and a device path.\<close>

definition camA :: IMoniker where
  "camA = \<lparr> moniker = 1, BindToStorage = Some \<lparr> sDevicePath = ''/path/1'',
              Description = None, FriendlyName = Some ''CamA'' \<rparr> \<rparr>"

definition camB :: IMoniker where
  "camB = \<lparr> moniker = 2, BindToStorage = Some \<lparr> sDevicePath = ''/path/2'',
              Description = None, FriendlyName = Some ''CamB'' \<rparr> \<rparr>"

definition other :: IMoniker where
  "other = \<lparr> moniker = 0, BindToStorage = Some \<lparr> sDevicePath = ''/path/0'',
              Description = None, FriendlyName = Some ''Other'' \<rparr> \<rparr>"

text \<open>Capabilities of 320 by 240: RGB24 at 15 and at 30 frames a second, YUY2 at 30.\<close>

definition rgb24_15 :: AM_MEDIA_TYPE where
  "rgb24_15 = \<lparr> majortype_is_Video = True, formattype_is_VideoInfo = True,
       subtype = MEDIASUBTYPE_RGB24, biWidth = 320, biHeight = 240, AvgTimePerFrame = 666666 \<rparr>"

definition rgb24_30 :: AM_MEDIA_TYPE where
  "rgb24_30 = \<lparr> majortype_is_Video = True, formattype_is_VideoInfo = True,
       subtype = MEDIASUBTYPE_RGB24, biWidth = 320, biHeight = 240, AvgTimePerFrame = 333333 \<rparr>"

definition yuy2_30 :: AM_MEDIA_TYPE where
  "yuy2_30 = \<lparr> majortype_is_Video = True, formattype_is_VideoInfo = True,
       subtype = MEDIASUBTYPE_YUY2, biWidth = 320, biHeight = 240, AvgTimePerFrame = 333333 \<rparr>"

section \<open>Arithmetic of the frame counter\<close>

lemma succ_INT_MIN: "(n + 1 = (0x80000000 :: 32 word)) \<longleftrightarrow> n = 0x7FFFFFFF"
  by auto


lemma smod_zero_iff_dvd: "b \<noteq> 0 \<Longrightarrow> (a :: int) smod b = 0 \<longleftrightarrow> b dvd a"
  by (auto simp: smod_int_alt_def sgn_if dvd_eq_mod_eq_0 [symmetric] zmod_eq_0_iff )

lemma smod_abs_le: "\<bar>(a :: int) smod b\<bar> \<le> \<bar>a\<bar>"
proof -
  define m where "m = \<bar>a\<bar> mod \<bar>b\<bar>"
  have le: "m \<le> \<bar>a\<bar>" unfolding m_def by (rule zmod_le_nonneg_dividend) simp
  have ge: "0 \<le> m" unfolding m_def by (cases "b = 0") simp_all
  have "a smod b = sgn a * m" by (simp add: smod_int_alt_def m_def)
  then have "\<bar>a smod b\<bar> = \<bar>sgn a\<bar> * m" using ge by (simp add: abs_mult)
  also have "\<dots> \<le> m" using ge by (cases "a = 0") simp_all
  finally show ?thesis using le by linarith
qed

lemma word_of_int_small_zero:
  assumes "\<bar>k\<bar> \<le> 2 ^ 31"
  shows "(word_of_int k :: 32 word) = 0 \<longleftrightarrow> k = 0"
proof
  assume "(word_of_int k :: 32 word) = 0"
  then have d: "(2 ^ 32 :: int) dvd k" by (simp add: word_of_int_eq_0_iff)
  show "k = 0"
  proof (rule ccontr)
    assume "k \<noteq> 0"
    from dvd_imp_le_int [OF this d] assms show False by simp
  qed
qed simp

lemma sint_succ: "sint (n :: 32 word) < 2 ^ 31 - 1 \<Longrightarrow> sint (n + 1) = sint n + 1"
proof -
  assume a: "sint n < 2 ^ 31 - 1"
  have "- (2 ^ 31) \<le> sint n" using sint_ge [of n] by simp
  with a have "signed_take_bit 31 (sint n + 1) = sint n + 1"
    by (simp add: signed_take_bit_int_eq_self)
  then show ?thesis by (simp add: sint_word_add)
qed

lemma sint_abs_le: "\<bar>sint (a :: 32 word)\<bar> \<le> 2 ^ 31"
  using sint_ge [of a] sint_lt [of a] by simp

lemma c_rem_zero_iff:
  assumes "b \<noteq> 0" and "0 \<le> sint a"
  shows "\<exists>r. c_rem a b = Inr r \<and> (r = 0 \<longleftrightarrow> sint b dvd sint a)"
proof -
  have nz: "sint b \<noteq> 0" using assms(1) by (simp add: signed_eq_0_iff)
  have "a \<noteq> 0x80000000" using assms(2) by auto
  then have "c_rem a b = Inr (word_of_int (sint a smod sint b))"
    using assms(1) by (simp add: c_rem_def)
  moreover have "\<bar>sint a smod sint b\<bar> \<le> 2 ^ 31"
    using smod_abs_le [of "sint a" "sint b"] sint_abs_le [of a] by linarith
  then have "(word_of_int (sint a smod sint b) :: 32 word) = 0 \<longleftrightarrow> sint a smod sint b = 0"
    by (rule word_of_int_small_zero)
  ultimately show ?thesis using smod_zero_iff_dvd [OF nz] by simp
qed

lemma c_rem_2_2: "c_rem 2 2 = Inr 0" by (simp add: c_rem_def smod_int_alt_def)
lemma c_rem_1_2: "c_rem 1 2 = Inr 1" by (simp add: c_rem_def smod_int_alt_def)

section \<open>Facts about the callback\<close>

lemma SampleCB_lastTime:
  "SampleCB lib s Time p = Inr r \<Longrightarrow> m_lastTime (after r) = Time"
  by (auto simp: SampleCB_def Let_def split: if_splits sum.splits option.splits)

lemma SampleCB_duplicate:
  "m_lastTime s = Time \<Longrightarrow> SampleCB lib s Time p =
     Inr \<lparr> hresult = S_OK, after = s,
           logged = [(DEBUG, ''SampleCB called''), (INFO, ''Got double frame'')],
           handled = None \<rparr>"
  by (simp add: SampleCB_def)

lemma SampleCB_stopped:
  "Time \<noteq> m_lastTime s \<Longrightarrow> \<not> m_running s \<Longrightarrow> SampleCB lib s Time p =
     Inr \<lparr> hresult = S_OK, after = s\<lparr> m_lastTime := Time \<rparr>,
           logged = [(DEBUG, ''SampleCB called'')], handled = None \<rparr>"
  by (simp add: SampleCB_def)

lemma SampleCB_stopped_any:
  "\<not> m_running s \<Longrightarrow> \<exists>r. SampleCB lib s Time p = Inr r \<and> handled r = None \<and>
     \<not> m_running (after r) \<and> m_nFrames (after r) = m_nFrames s"
  by (cases "Time = m_lastTime s") (simp_all add: SampleCB_def)

lemma deliver_stopped:
  "\<not> m_running s \<Longrightarrow> \<exists>rs. deliver lib s fs = Inr rs \<and> length rs = length fs \<and>
     (\<forall>r \<in> set rs. handled r = None \<and> m_nFrames (after r) = m_nFrames s)"
proof (induction fs arbitrary: s)
  case Nil
  then show ?case by simp
next
  case (Cons f fs)
  obtain Time p where f: "f = (Time, p)" by (cases f)
  from Cons.prems obtain r where r: "SampleCB lib s Time p = Inr r" "handled r = None"
    "\<not> m_running (after r)" "m_nFrames (after r) = m_nFrames s"
    using SampleCB_stopped_any by blast
  from Cons.IH [OF r(3)] obtain rs where rs: "deliver lib (after r) fs = Inr rs"
    "length rs = length fs" "\<forall>r' \<in> set rs. handled r' = None \<and> m_nFrames (after r') = m_nFrames (after r)"
    by blast
  show ?case using f r rs by simp
qed

lemma SampleCB_handled:
  "SampleCB lib s Time p = Inr r \<Longrightarrow> handled r = Some out \<Longrightarrow>
     \<exists>b. out = handleFrame lib (after r)
                 (Image (sint (m_sampleWidth s)) (sint (m_sampleHeight s)) SampleCB_fmt b) \<and>
         GetPointer p = Some b \<and>
         after r = s\<lparr> m_lastTime := Time, m_nFrames := m_nFrames s + 1 \<rparr>"
  by (auto simp: SampleCB_def Let_def split: if_splits sum.splits option.splits)

lemma SampleCB_counted:
  assumes "m_running s" and "Time \<noteq> m_lastTime s" and "m_divisor s \<noteq> 0"
      and "0 \<le> sint (m_nFrames s)" and "sint (m_nFrames s) < 2 ^ 31 - 1"
  shows "\<exists>r. SampleCB lib s Time p = Inr r \<and>
           after r = s\<lparr> m_lastTime := Time, m_nFrames := m_nFrames s + 1 \<rparr> \<and>
           (handled r \<noteq> None \<longleftrightarrow>
              sint (m_divisor s) dvd sint (m_nFrames s) + 1 \<and> valid_sample s p)"
proof -
  have s1: "sint (m_nFrames s + 1) = sint (m_nFrames s) + 1"
    using assms(5) by (rule sint_succ)
  then have "0 \<le> sint (m_nFrames s + 1)" using assms(4) by simp
  from c_rem_zero_iff [OF assms(3) this] obtain r where
    r: "c_rem (m_nFrames s + 1) (m_divisor s) = Inr r"
       "r = 0 \<longleftrightarrow> sint (m_divisor s) dvd sint (m_nFrames s) + 1"
    using s1 by auto
  show ?thesis using assms(1,2) r
    by (cases "r = 0") (auto simp: SampleCB_def Let_def valid_sample_def split: option.splits)
qed

lemma deliver_counted:
  assumes "m_running s" and "m_divisor s \<noteq> 0"
      and "sorted_wrt (<) (m_lastTime s # map fst fs)"
      and "0 \<le> sint (m_nFrames s)" and "sint (m_nFrames s) + int (length fs) < 2 ^ 31"
  shows "\<exists>rs. deliver lib s fs = Inr rs \<and> length rs = length fs \<and>
           (\<forall>i < length fs. handled (rs ! i) \<noteq> None \<longleftrightarrow>
              sint (m_divisor s) dvd sint (m_nFrames s) + int i + 1 \<and>
              valid_sample s (snd (fs ! i)))"
  using assms
proof (induction fs arbitrary: s)
  case Nil
  then show ?case by simp
next
  case (Cons f fs)
  obtain Time p where f: "f = (Time, p)" by (cases f)
  have fresh: "Time \<noteq> m_lastTime s" using Cons.prems(3) f by auto
  have room: "sint (m_nFrames s) < 2 ^ 31 - 1" using Cons.prems(5) by simp
  from SampleCB_counted [OF Cons.prems(1) fresh Cons.prems(2) Cons.prems(4) room]
  obtain r where r: "SampleCB lib s Time p = Inr r"
      "after r = s\<lparr> m_lastTime := Time, m_nFrames := m_nFrames s + 1 \<rparr>"
      "handled r \<noteq> None \<longleftrightarrow>
         sint (m_divisor s) dvd sint (m_nFrames s) + 1 \<and> valid_sample s p"
    by blast
  have n1: "sint (m_nFrames (after r)) = sint (m_nFrames s) + 1"
    using r(2) sint_succ [OF room] by simp
  have p1: "m_running (after r)" using r(2) Cons.prems(1) by simp
  have p2: "m_divisor (after r) \<noteq> 0" using r(2) Cons.prems(2) by simp
  have p3: "sorted_wrt (<) (m_lastTime (after r) # map fst fs)"
    using r(2) Cons.prems(3) f by simp
  have p4: "0 \<le> sint (m_nFrames (after r))" using n1 Cons.prems(4) by simp
  have p5: "sint (m_nFrames (after r)) + int (length fs) < 2 ^ 31"
    using n1 Cons.prems(5) by simp
  from Cons.IH [OF p1 p2 p3 p4 p5] obtain rs where
    rs: "deliver lib (after r) fs = Inr rs" "length rs = length fs"
        "\<forall>i < length fs. handled (rs ! i) \<noteq> None \<longleftrightarrow>
              sint (m_divisor (after r)) dvd sint (m_nFrames (after r)) + int i + 1 \<and>
              valid_sample (after r) (snd (fs ! i))"
    by blast
  have same: "m_divisor (after r) = m_divisor s"
      "\<And>q. valid_sample (after r) q = valid_sample s q"
    using r(2) by (simp_all add: valid_sample_def)
  have d: "deliver lib s (f # fs) = Inr (r # rs)" using f r(1) rs(1) by simp
  have "\<forall>i < length (f # fs). handled ((r # rs) ! i) \<noteq> None \<longleftrightarrow>
              sint (m_divisor s) dvd sint (m_nFrames s) + int i + 1 \<and>
              valid_sample s (snd ((f # fs) ! i))"
  proof (intro allI impI)
    fix i assume i: "i < length (f # fs)"
    show "handled ((r # rs) ! i) \<noteq> None \<longleftrightarrow>
              sint (m_divisor s) dvd sint (m_nFrames s) + int i + 1 \<and>
              valid_sample s (snd ((f # fs) ! i))"
    proof (cases i)
      case 0
      then show ?thesis using r(3) f by simp
    next
      case (Suc j)
      then have "j < length fs" using i by simp
      with rs(3) have "handled (rs ! j) \<noteq> None \<longleftrightarrow>
              sint (m_divisor (after r)) dvd sint (m_nFrames (after r)) + int j + 1 \<and>
              valid_sample (after r) (snd (fs ! j))" by blast
      then show ?thesis using Suc same n1 by (simp add: add.commute add.left_commute)
    qed
  qed
  with d rs(2) show ?case by auto
qed

section \<open>Facts about the device loop\<close>

lemma enumerate_devices_find:
  "enumerate_devices n p ds sel =
     (case find (taken n p) ds of
        Some d \<Rightarrow> \<lparr> pSelectedMoniker = Some d, sSelectedCamera = selected_name d \<rparr>
      | None \<Rightarrow>
          (case ds of
             [] \<Rightarrow> sel
           | d # rest \<Rightarrow> if pSelectedMoniker sel = None
                         then sel\<lparr> pSelectedMoniker := Some d \<rparr> else sel))"
proof (induction ds arbitrary: sel)
  case Nil
  then show ?case by simp
next
  case (Cons d ds)
  show ?case
  proof (cases "taken n p d")
    case True
    then show ?thesis
      by (auto simp: taken_def name_matches_def path_matches_def device_name_def
            selected_name_def split: option.splits)
  next
    case False
    then have step: "enumerate_devices n p (d # ds) sel =
        enumerate_devices n p ds
          (if pSelectedMoniker sel = None then sel\<lparr> pSelectedMoniker := Some d \<rparr> else sel)"
      by (auto simp: taken_def name_matches_def path_matches_def device_name_def Let_def
            split: option.splits)
    show ?thesis
      unfolding step Cons.IH using False
      by (auto split: option.splits list.splits)
  qed
qed

lemma select_device_find:
  "select_device s devices =
     (case find (taken (m_desiredName s) (m_desiredDevicePath s)) devices of
        Some d \<Rightarrow> Inr \<lparr> pSelectedMoniker = Some d, sSelectedCamera = selected_name d \<rparr>
      | None \<Rightarrow>
          (case devices of
             [] \<Rightarrow> Inl (UBITRACK_THROW ''No video capture device found'')
           | d # rest \<Rightarrow> Inr \<lparr> pSelectedMoniker = Some d, sSelectedCamera = [] \<rparr>))"
  by (simp add: select_device_def enumerate_devices_find Let_def
        split: option.splits list.splits)

section \<open>The claims\<close>

text \<open>
  Claim C1, as the code has it. The callback counts a frame before it tests the divisor
  (\<open>++m_nFrames % m_divisor\<close>), so the frames it hands on are those whose index from one
  is a multiple of the divisor: index \<open>i\<close> from zero is handed on exactly when the divisor
  divides \<open>i + 1\<close> and the sample passes the size and pointer checks. This holds for a
  running grabber with a counter of 0 and a divisor other than 0, and for fewer than
  \<open>2 ^ 31\<close> samples whose time stamps increase strictly from above \<open>m_lastTime\<close>.
  With the divisor 1 every sample that passes the checks is handed on.
\<close>

theorem divisor_cadence:
  assumes "m_running s" and "m_divisor s \<noteq> 0" and "m_nFrames s = 0"
      and "sorted_wrt (<) (m_lastTime s # map fst fs)" and "length fs < 2 ^ 31"
  shows "\<exists>flags. forwarded lib s fs = Inr flags \<and> length flags = length fs \<and>
           (\<forall>i < length fs. flags ! i \<longleftrightarrow>
              sint (m_divisor s) dvd int (i + 1) \<and> valid_sample s (snd (fs ! i))) \<and>
           (m_divisor s = 1 \<longrightarrow>
              (\<forall>i < length fs. flags ! i \<longleftrightarrow> valid_sample s (snd (fs ! i))))"
proof -
  have n0: "0 \<le> sint (m_nFrames s)" using assms(3) by simp
  have room: "sint (m_nFrames s) + int (length fs) < 2 ^ 31" 
    using assms(3,5) by simp
  from deliver_counted [OF assms(1,2,4) n0 room] obtain rs where
    rs: "deliver lib s fs = Inr rs" "length rs = length fs"
        "\<forall>i < length fs. handled (rs ! i) \<noteq> None \<longleftrightarrow>
              sint (m_divisor s) dvd sint (m_nFrames s) + int i + 1 \<and>
              valid_sample s (snd (fs ! i))"
    by blast
  let ?flags = "map (\<lambda>r. handled r \<noteq> None) rs"
  have f: "forwarded lib s fs = Inr ?flags" using rs(1) by (simp add: forwarded_def)
  have all: "\<forall>i < length fs. ?flags ! i \<longleftrightarrow>
              sint (m_divisor s) dvd int (i + 1) \<and> valid_sample s (snd (fs ! i))"
    using rs(2,3) assms(3) by (simp add: add.commute)
  have one: "m_divisor s = 1 \<longrightarrow>
              (\<forall>i < length fs. ?flags ! i \<longleftrightarrow> valid_sample s (snd (fs ! i)))"
    using all by simp
  show ?thesis
    apply (rule exI [of _ ?flags])
    using f rs(2) all one by simp
qed

theorem divisor_cadence_witness:
  "m_running armed \<and> m_divisor armed \<noteq> 0 \<and> m_nFrames armed = 0 \<and>
   sorted_wrt (<) (m_lastTime armed # map fst [(1, sample12), (2, sample12), (3, sample11), (4, sample12)]) \<and>
   forwarded cpu_only armed [(1, sample12), (2, sample12), (3, sample11), (4, sample12)] =
     Inr [False, True, False, True]"
proof -
  let ?fs = "[(1 :: real, sample12), (2, sample12), (3, sample11), (4, sample12)]"
  have h1: "m_running armed" and h2: "m_divisor armed \<noteq> 0" and h3: "m_nFrames armed = 0"
    by (simp_all add: armed_def constructed_def)
  have h4: "sorted_wrt (<) (m_lastTime armed # map fst ?fs)"
    by (simp add: armed_def constructed_def)
  have h5: "length ?fs < 2 ^ 31" by simp
  have v12: "valid_sample armed sample12" and v11: "\<not> valid_sample armed sample11"
    by (simp_all add: valid_sample_def armed_def constructed_def sample12_def sample11_def
          word_sless_alt)
  have d: "sint (m_divisor armed) = 2" by (simp add: armed_def constructed_def)
  from divisor_cadence [OF h1 h2 h3 h4 h5, of cpu_only] obtain flags where
    fl: "forwarded cpu_only armed ?fs = Inr flags" "length flags = length ?fs"
        "\<forall>i < length ?fs. flags ! i \<longleftrightarrow>
              sint (m_divisor armed) dvd int (i + 1) \<and> valid_sample armed (snd (?fs ! i))"
    by blast
  from fl(3) have "flags ! 0 = False" "flags ! 1 = True" "flags ! 2 = False" "flags ! 3 = True"
    using v12 v11 d by simp_all
  moreover from fl(2) obtain a b c e where "flags = [a, b, c, e]"
    by (auto simp: length_Suc_conv numeral_eq_Suc)
  ultimately have "flags = [False, True, False, True]" by simp
  then show ?thesis using fl(1) h1 h2 h3 h4 by simp
qed

text \<open>
  The claim as the specification words it fails: with the divisor 2, the frame of index 0
  is dropped although 0 is a multiple of 2, and the frame of index 1 is handed on.
\<close>

theorem index_zero_dropped_counterexample:
  "m_running armed \<and> sint (m_divisor armed) = 2 \<and> m_nFrames armed = 0 \<and>
   valid_sample armed sample12 \<and>
   forwarded cpu_only armed [(1, sample12), (2, sample12)] = Inr [False, True] \<and>
   (0 :: int) mod sint (m_divisor armed) = 0 \<and> (1 :: int) mod sint (m_divisor armed) \<noteq> 0"
  by (simp add: forwarded_def SampleCB_def Let_def armed_def constructed_def c_rem_1_2 c_rem_2_2
        sample12_def valid_sample_def word_sless_alt)

text \<open>
  Claim C2. When two calls in a row carry the same time stamp, the second is dropped as a
  double frame: it returns \<open>S_OK\<close>, hands nothing to \<open>handleFrame\<close> and leaves the
  state, and so the counter, as the first call left it. Of the pair only the first can be
  handed on, and when the component runs and the first time stamp is new the pair moves
  the counter by exactly one.
\<close>

theorem duplicate_timestamp_discarded:
  assumes "SampleCB lib s Time p1 = Inr r1"
  shows "SampleCB lib (after r1) Time p2 =
           Inr \<lparr> hresult = S_OK, after = after r1,
                 logged = [(DEBUG, ''SampleCB called''), (INFO, ''Got double frame'')],
                 handled = None \<rparr> \<and>
         deliver lib s [(Time, p1), (Time, p2)] =
           Inr [r1, \<lparr> hresult = S_OK, after = after r1,
                     logged = [(DEBUG, ''SampleCB called''), (INFO, ''Got double frame'')],
                     handled = None \<rparr>] \<and>
         forwarded lib s [(Time, p1), (Time, p2)] = Inr [handled r1 \<noteq> None, False] \<and>
         (m_running s \<and> Time \<noteq> m_lastTime s \<longrightarrow> m_nFrames (after r1) = m_nFrames s + 1)"
proof -
  have "m_lastTime (after r1) = Time" using assms by (rule SampleCB_lastTime)
  then have second: "SampleCB lib (after r1) Time p2 =
           Inr \<lparr> hresult = S_OK, after = after r1,
                 logged = [(DEBUG, ''SampleCB called''), (INFO, ''Got double frame'')],
                 handled = None \<rparr>"
    by (rule SampleCB_duplicate)
  have count: "m_running s \<and> Time \<noteq> m_lastTime s \<longrightarrow> m_nFrames (after r1) = m_nFrames s + 1"
    using assms by (auto simp: SampleCB_def Let_def split: if_splits sum.splits option.splits)
  show ?thesis using assms second count by (simp add: forwarded_def)
qed

theorem duplicate_timestamp_discarded_witness:
  "SampleCB cpu_only armed 7 sample12 = Inr first_of_pair \<and>
   deliver cpu_only armed [(7, sample12), (7, sample12)] =
     Inr [first_of_pair,
          \<lparr> hresult = S_OK, after = after first_of_pair,
            logged = [(DEBUG, ''SampleCB called''), (INFO, ''Got double frame'')],
            handled = None \<rparr>] \<and>
   forwarded cpu_only armed [(7, sample12), (7, sample12)] = Inr [False, False] \<and>
   m_running armed \<and> (7 :: real) \<noteq> m_lastTime armed \<and>
   m_nFrames (after first_of_pair) = m_nFrames armed + 1"
proof -
  have first: "SampleCB cpu_only armed 7 sample12 = Inr first_of_pair"
    by (simp add: SampleCB_def first_of_pair_def armed_def constructed_def c_rem_1_2)
  have run: "m_running armed \<and> (7 :: real) \<noteq> m_lastTime armed"
    by (simp add: armed_def constructed_def)
  have none: "handled first_of_pair = None" by (simp add: first_of_pair_def)
  show ?thesis
    using duplicate_timestamp_discarded [OF first, of sample12] first run none by simp
qed

text \<open>
  Claim C3 at a concrete list of capabilities. With the desired size 320 by 240, the loop
  first sets the RGB24 format of 15 frames a second and then replaces it by the YUY2
  format of the same size, because that one has 30 frames a second. Between two RGB24
  formats of the same size the later one stays, also when it is the slower one.
\<close>

theorem rgb24_displaced:
  "SetFormat (negotiate_format constructed [rgb24_15]) = Some rgb24_15 \<and>
   SetFormat (negotiate_format constructed [rgb24_15, yuy2_30]) = Some yuy2_30 \<and>
   subtype yuy2_30 \<noteq> MEDIASUBTYPE_RGB24 \<and>
   SetFormat (negotiate_format constructed [rgb24_30, rgb24_15]) = Some rgb24_15"
  by (simp add: negotiate_format_def constructed_def rgb24_15_def rgb24_30_def yuy2_30_def
        fps_of_def)

text \<open>
  Claim C4, as the code has it. Given an enumerator, the loop takes the first device
  whose name (the description, else the friendly name) contains the desired name and,
  when a desired device path is configured, whose device path contains it as well; a
  device that has the name but not the path is passed over. When no device is taken,
  which is always so when no desired name is configured, the first enumerated device is
  selected and the stored camera name stays empty. The exception is thrown exactly when
  there is an enumerator and it yields no device.
\<close>

theorem device_selection:
  "initGraph_device s (Some devices) =
     Inr (case find (taken (m_desiredName s) (m_desiredDevicePath s)) devices of
            Some d \<Rightarrow> Inr \<lparr> pSelectedMoniker = Some d, sSelectedCamera = selected_name d \<rparr>
          | None \<Rightarrow>
              (case devices of
                 [] \<Rightarrow> Inl (UBITRACK_THROW ''No video capture device found'')
               | d # rest \<Rightarrow> Inr \<lparr> pSelectedMoniker = Some d, sSelectedCamera = [] \<rparr>)) \<and>
   ((\<exists>e. initGraph_device s pEnum = Inr (Inl e)) \<longleftrightarrow> pEnum = Some []) \<and>
   (m_desiredName s = [] \<longrightarrow> find (taken (m_desiredName s) (m_desiredDevicePath s)) devices = None)"
proof -
  have none: "m_desiredName s = [] \<longrightarrow>
      find (taken (m_desiredName s) (m_desiredDevicePath s)) devices = None"
    by (auto simp: find_None_iff taken_def name_matches_def split: option.splits)
  have throws: "(\<exists>e. initGraph_device s pEnum = Inr (Inl e)) \<longleftrightarrow> pEnum = Some []"
  proof (cases pEnum)
    case None
    then show ?thesis by (simp add: initGraph_device_def)
  next
    case (Some ds)
    have "(\<exists>e. select_device s ds = Inl e) \<longleftrightarrow> ds = []"
      by (auto simp: select_device_find find_None_iff split: option.splits list.splits)
    then show ?thesis using Some by (simp add: initGraph_device_def)
  qed
  have "initGraph_device s (Some devices) = Inr (select_device s devices)"
    by (simp add: initGraph_device_def)
  with none throws show ?thesis by (simp add: select_device_find)
qed

theorem device_selection_witness:
  "initGraph_device (wants ''Cam'' []) (Some [camA, camB]) =
     Inr (Inr \<lparr> pSelectedMoniker = Some camA, sSelectedCamera = ''CamA'' \<rparr>) \<and>
   initGraph_device (wants ''Cam'' ''/path/2'') (Some [camA, camB]) =
     Inr (Inr \<lparr> pSelectedMoniker = Some camB, sSelectedCamera = ''CamB'' \<rparr>) \<and>
   m_desiredName (wants [] []) = [] \<and>
   initGraph_device (wants [] []) (Some [other, camA]) =
     Inr (Inr \<lparr> pSelectedMoniker = Some other, sSelectedCamera = [] \<rparr>) \<and>
   initGraph_device (wants ''Cam'' []) (Some []) =
     Inr (Inl (UBITRACK_THROW ''No video capture device found''))"
  using device_selection [of "wants ''Cam'' []" "[camA, camB]"]
        device_selection [of "wants ''Cam'' ''/path/2''" "[camA, camB]"]
        device_selection [of "wants [] []" "[other, camA]"]
        device_selection [of "wants ''Cam'' []" "[]"]
  by (simp add: wants_def constructed_def camA_def camB_def other_def taken_def
        name_matches_def path_matches_def device_name_def selected_name_def)

text \<open>
  The claim as the specification words it fails: a device path that no device has is
  configured, the second device has the desired name, and the first device, which has
  not, is selected.
\<close>

theorem name_match_passed_over_counterexample:
  "select_device (wants ''Cam'' ''/path/9'') [other, camA] =
     Inr \<lparr> pSelectedMoniker = Some other, sSelectedCamera = [] \<rparr> \<and>
   name_matches ''Cam'' camA \<and> \<not> name_matches ''Cam'' other"
  by (simp add: select_device_def wants_def constructed_def camA_def other_def
        name_matches_def device_name_def)

text \<open>
  Claim C5. Whenever the callback hands a frame to \<open>handleFrame\<close> and the luminance port
  \<open>Output\<close> has a consumer, a luminance image is sent. It is the image on the buffer of
  that sample, uploaded and resized as configured, converted to grey once and undistorted
  once, by \<open>m_undistorter\<close>: before the conversion when the colour port has a consumer,
  after it when not. So undistortion was applied exactly once on the way to it, whether
  or not the colour port has a consumer and whether or not the frame was resized.
\<close>

theorem luminance_undistorted_once:
  assumes "SampleCB lib s Time pSample = Inr r" and "handled r = Some out"
      and "m_outPort_isConnected s"
  shows "\<exists>g b. sentOutput out = Some g \<and> GetPointer pSample = Some b \<and>
           g = (let bufferImage0 = Image (sint (m_sampleWidth s)) (sint (m_sampleHeight s))
                                     SampleCB_fmt b;
                    bufferImage = (if m_autoGPUUpload s \<and> oclIsInitialized lib
                                   then UMat bufferImage0 else bufferImage0);
                    base = (if (0 < m_desiredWidth s \<and> 0 < m_desiredHeight s) \<and>
                               (m_desiredWidth s < sint (m_sampleWidth s) \<or>
                                m_desiredHeight s < sint (m_sampleHeight s))
                            then Resize (m_desiredWidth s) (m_desiredHeight s) bufferImage
                            else bufferImage)
                in if m_colorOutPort_isConnected s
                   then to_grey lib (Undistort (m_undistorter s) base)
                   else Undistort (m_undistorter s) (to_grey lib base)) \<and>
           source g = Image (sint (m_sampleWidth s)) (sint (m_sampleHeight s)) SampleCB_fmt b \<and>
           undistortions g = 1 \<and> undistorters g = [m_undistorter s] \<and> conversions g = 1"
proof -
  from assms(1,2) obtain b where out: "out = handleFrame lib (after r)
      (Image (sint (m_sampleWidth s)) (sint (m_sampleHeight s)) SampleCB_fmt b)"
    and ptr: "GetPointer pSample = Some b"
    and aft: "after r = s\<lparr> m_lastTime := Time, m_nFrames := m_nFrames s + 1 \<rparr>"
    using SampleCB_handled by blast
  let ?g = "let bufferImage0 = Image (sint (m_sampleWidth s)) (sint (m_sampleHeight s))
                                     SampleCB_fmt b;
                    bufferImage = (if m_autoGPUUpload s \<and> oclIsInitialized lib
                                   then UMat bufferImage0 else bufferImage0);
                    base = (if (0 < m_desiredWidth s \<and> 0 < m_desiredHeight s) \<and>
                               (m_desiredWidth s < sint (m_sampleWidth s) \<or>
                                m_desiredHeight s < sint (m_sampleHeight s))
                            then Resize (m_desiredWidth s) (m_desiredHeight s) bufferImage
                            else bufferImage)
                in if m_colorOutPort_isConnected s
                   then to_grey lib (Undistort (m_undistorter s) base)
                   else Undistort (m_undistorter s) (to_grey lib base)"
  have sent: "sentOutput out = Some ?g"
    using assms(3) by (auto simp: out aft handleFrame_def Let_def to_grey_def)
  have src: "source ?g = Image (sint (m_sampleWidth s)) (sint (m_sampleHeight s)) SampleCB_fmt b"
    by (simp add: Let_def to_grey_def)
  have once: "undistortions ?g = 1" "undistorters ?g = [m_undistorter s]" "conversions ?g = 1"
    by (simp_all add: Let_def to_grey_def)
  show ?thesis
    apply (rule exI [of _ ?g])
    apply (rule exI [of _ b])
    using sent ptr src once by simp
qed

theorem luminance_undistorted_once_witness:
  "SampleCB cpu_only (armed\<lparr> m_lastTime := 1, m_nFrames := 1 \<rparr>) 2 sample12 = Inr second_result \<and>
   handled second_result = Some second_frame \<and>
   m_outPort_isConnected (armed\<lparr> m_lastTime := 1, m_nFrames := 1 \<rparr>) \<and>
   sentOutput second_frame =
     Some (Undistort 0 (CvtColor (Image 2 2 SampleCB_fmt (replicate 12 0)))) \<and>
   SampleCB cpu_only armed_vga 2 sample_vga = Inr vga_result \<and>
   handled vga_result = Some vga_frame \<and> m_outPort_isConnected armed_vga \<and>
   sentOutput vga_frame =
     Some (CvtColor (Undistort 0 (Resize 320 240 (Image 640 480 SampleCB_fmt []))))"
proof -
  have r: "SampleCB cpu_only (armed\<lparr> m_lastTime := 1, m_nFrames := 1 \<rparr>) 2 sample12 =
      Inr second_result"
    by (simp add: SampleCB_def Let_def second_result_def second_frame_def armed_def
          constructed_def sample12_def c_rem_2_2 word_sless_alt)
  have h: "handled second_result = Some second_frame" by (simp add: second_result_def)
  have c: "m_outPort_isConnected (armed\<lparr> m_lastTime := 1, m_nFrames := 1 \<rparr>)"
    by (simp add: armed_def)
  have r': "SampleCB cpu_only armed_vga 2 sample_vga = Inr vga_result"
    by (simp add: SampleCB_def Let_def vga_result_def vga_frame_def armed_vga_def armed_def
          constructed_def sample_vga_def c_rem_2_2 word_sless_alt)
  have h': "handled vga_result = Some vga_frame" by (simp add: vga_result_def)
  have c': "m_outPort_isConnected armed_vga" by (simp add: armed_vga_def armed_def)
  from luminance_undistorted_once [OF r h c]
  have g: "sentOutput second_frame =
      Some (Undistort 0 (CvtColor (Image 2 2 SampleCB_fmt (replicate 12 0))))"
    by (simp add: Let_def to_grey_def cpu_only_def armed_def constructed_def sample12_def)
  from luminance_undistorted_once [OF r' h' c']
  have g': "sentOutput vga_frame =
      Some (CvtColor (Undistort 0 (Resize 320 240 (Image 640 480 SampleCB_fmt []))))"
    by (simp add: Let_def to_grey_def cpu_only_def armed_vga_def armed_def constructed_def
          sample_vga_def)
  from r h c g r' h' c' g' show ?thesis by simp
qed




text \<open>
  Claim C7, as the code has it. The callback has no return value other than \<open>S_OK\<close>. A repeated time
  stamp and a component that is not running make it return \<open>S_OK\<close> with nothing handed
  to \<open>handleFrame\<close>. With a divisor the processor can divide by (not zero, and not
  \<open>-1\<close> at the counter value whose successor is \<open>INT_MIN\<close>) every call returns
  \<open>S_OK\<close>, whether the divisor skips the frame or not, and a sample that is too small or
  a failing \<open>GetPointer\<close> leaves nothing handed to \<open>handleFrame\<close>.
\<close>

theorem SampleCB_returns_S_OK:
  "(\<forall>r. SampleCB lib s Time pSample = Inr r \<longrightarrow> hresult r = S_OK) \<and>
   (Time = m_lastTime s \<or> \<not> m_running s \<longrightarrow>
      (\<exists>r. SampleCB lib s Time pSample = Inr r \<and> hresult r = S_OK \<and> handled r = None)) \<and>
   (m_divisor s \<noteq> 0 \<and> (m_nFrames s \<noteq> 0x7FFFFFFF \<or> m_divisor s \<noteq> - 1) \<longrightarrow>
      (\<exists>r. SampleCB lib s Time pSample = Inr r \<and> hresult r = S_OK \<and>
           (GetSize pSample <s m_sampleWidth s * m_sampleHeight s * 3 \<or>
            GetPointer pSample = None \<longrightarrow> handled r = None)))"
proof -
  have always: "\<forall>r. SampleCB lib s Time pSample = Inr r \<longrightarrow> hresult r = S_OK"
    by (auto simp: SampleCB_def Let_def split: if_splits sum.splits option.splits)
  have early: "Time = m_lastTime s \<or> \<not> m_running s \<longrightarrow>
      (\<exists>r. SampleCB lib s Time pSample = Inr r \<and> hresult r = S_OK \<and> handled r = None)"
  proof (cases "Time = m_lastTime s")
    case True
    then show ?thesis by (simp add: SampleCB_duplicate)
  next
    case False
    then show ?thesis by (auto simp: SampleCB_stopped)
  qed
  have late: "\<exists>r. SampleCB lib s Time pSample = Inr r \<and> hresult r = S_OK \<and>
           (GetSize pSample <s m_sampleWidth s * m_sampleHeight s * 3 \<or>
            GetPointer pSample = None \<longrightarrow> handled r = None)"
    if "m_divisor s \<noteq> 0 \<and> (m_nFrames s \<noteq> 0x7FFFFFFF \<or> m_divisor s \<noteq> - 1)"
  proof -
    from that
    have "\<not> (m_divisor s = 0 \<or> (m_nFrames s + 1 = 0x80000000 \<and> m_divisor s = - 1))"
      by (auto simp: succ_INT_MIN)
    then show ?thesis
      by (auto simp: SampleCB_def Let_def c_rem_def split: option.splits)
  qed
  from always early late show ?thesis by blast
qed

theorem SampleCB_returns_S_OK_witness:
  "m_divisor (armed\<lparr> m_nFrames := 1 \<rparr>) \<noteq> 0 \<and>
   m_nFrames (armed\<lparr> m_nFrames := 1 \<rparr>) \<noteq> 0x7FFFFFFF \<and>
   GetSize sample11 <s m_sampleWidth (armed\<lparr> m_nFrames := 1 \<rparr>) *
                       m_sampleHeight (armed\<lparr> m_nFrames := 1 \<rparr>) * 3 \<and>
   (\<exists>r. SampleCB cpu_only (armed\<lparr> m_nFrames := 1 \<rparr>) 2 sample11 = Inr r \<and>
        hresult r = S_OK \<and> handled r = None) \<and>
   \<not> m_running constructed \<and>
   (\<exists>r. SampleCB cpu_only constructed 2 sample12 = Inr r \<and> hresult r = S_OK \<and>
        handled r = None)"
  using SampleCB_returns_S_OK [where s = "armed\<lparr> m_nFrames := 1 \<rparr>" and lib = cpu_only
          and Time = 2 and pSample = sample11]
        SampleCB_returns_S_OK [where s = constructed and lib = cpu_only
          and Time = 2 and pSample = sample12]
  by (simp add: armed_def constructed_def sample11_def word_sless_alt)

text \<open>
  The claim as the specification words it fails for the divisor 0: a running grabber
  that gets a sample with a new time stamp divides by zero and does not return.
\<close>

theorem zero_divisor_counterexample:
  "m_running zero_divisor \<and> (1 :: real) \<noteq> m_lastTime zero_divisor \<and>
   m_divisor zero_divisor = 0 \<and>
   SampleCB cpu_only zero_divisor 1 sample12 = Inl DivideError"
  by (simp add: SampleCB_def Let_def zero_divisor_def armed_def constructed_def c_rem_def)



text \<open>
  Claim C9. When the enumeration yields at least one device, the selection does not
  fail. When no device is taken by name and path, the first enumerated device is
  selected, with an empty stored camera name. The exception is thrown for the empty
  enumeration.
\<close>

theorem first_device_fallback:
  assumes "devices = d # rest"
  shows "(\<exists>sel. select_device s devices = Inr sel) \<and>
         (find (taken (m_desiredName s) (m_desiredDevicePath s)) devices = None \<longrightarrow>
            select_device s devices = Inr \<lparr> pSelectedMoniker = Some d, sSelectedCamera = [] \<rparr>) \<and>
         select_device s [] = Inl (UBITRACK_THROW ''No video capture device found'')"
  using assms by (auto simp: select_device_find split: option.splits)

theorem first_device_fallback_witness:
  "[other, camB] = other # [camB] \<and>
   find (taken ''Cam'' ''/path/9'') [other, camB] = None \<and>
   select_device (wants ''Cam'' ''/path/9'') [other, camB] =
     Inr \<lparr> pSelectedMoniker = Some other, sSelectedCamera = [] \<rparr> \<and>
   select_device (wants ''Cam'' ''/path/9'') [] =
     Inl (UBITRACK_THROW ''No video capture device found'')"
proof -
  have n: "find (taken ''Cam'' ''/path/9'') [other, camB] = None"
    by (simp add: taken_def name_matches_def path_matches_def device_name_def camB_def other_def)
  have w: "m_desiredName (wants ''Cam'' ''/path/9'') = ''Cam''"
     "m_desiredDevicePath (wants ''Cam'' ''/path/9'') = ''/path/9''"
    by (simp_all add: wants_def)
  from first_device_fallback [of "[other, camB]" other "[camB]" "wants ''Cam'' ''/path/9''"]
  show ?thesis using n w by simp
qed

text \<open>
  Claim C10. A sample with a new time stamp that arrives while the component is not running
  moves \<open>m_lastTime\<close> to that time stamp and leaves \<open>m_nFrames\<close> as it is. So a
  later sample with the same time stamp is dropped as a double frame, whether or not the
  component runs by then, and no delivery to a stopped component moves the counter.
\<close>

theorem stopped_frame_moves_lastTime_only:
  assumes "Time \<noteq> m_lastTime s" and "\<not> m_running s"
  shows "\<exists>r. SampleCB lib s Time pSample = Inr r \<and> hresult r = S_OK \<and> handled r = None \<and>
           m_lastTime (after r) = Time \<and> m_nFrames (after r) = m_nFrames s \<and>
           after r = s\<lparr> m_lastTime := Time \<rparr> \<and>
           (\<forall>b p. SampleCB lib ((after r)\<lparr> m_running := b \<rparr>) Time p =
              Inr \<lparr> hresult = S_OK, after = (after r)\<lparr> m_running := b \<rparr>,
                    logged = [(DEBUG, ''SampleCB called''), (INFO, ''Got double frame'')],
                    handled = None \<rparr>) \<and>
           (\<forall>fs. \<exists>rs. deliver lib (after r) fs = Inr rs \<and> length rs = length fs \<and>
              (\<forall>r' \<in> set rs. handled r' = None \<and> m_nFrames (after r') = m_nFrames s))"
proof -
  let ?r = "\<lparr> hresult = S_OK, after = s\<lparr> m_lastTime := Time \<rparr>,
           logged = [(DEBUG, ''SampleCB called'')], handled = None \<rparr>"
  have r: "SampleCB lib s Time pSample = Inr ?r"
    using assms by (rule SampleCB_stopped)
  have dup: "\<forall>b p. SampleCB lib ((after ?r)\<lparr> m_running := b \<rparr>) Time p =
              Inr \<lparr> hresult = S_OK, after = (after ?r)\<lparr> m_running := b \<rparr>,
                    logged = [(DEBUG, ''SampleCB called''), (INFO, ''Got double frame'')],
                    handled = None \<rparr>"
    by (simp add: SampleCB_duplicate)
  have "\<not> m_running (after ?r)" using assms(2) by simp
  then have rest: "\<forall>fs. \<exists>rs. deliver lib (after ?r) fs = Inr rs \<and> length rs = length fs \<and>
              (\<forall>r' \<in> set rs. handled r' = None \<and> m_nFrames (after r') = m_nFrames (after ?r))"
    using deliver_stopped by blast
  have "m_nFrames (after ?r) = m_nFrames s" by simp
  with rest have rest': "\<forall>fs. \<exists>rs. deliver lib (after ?r) fs = Inr rs \<and> length rs = length fs \<and>
              (\<forall>r' \<in> set rs. handled r' = None \<and> m_nFrames (after r') = m_nFrames s)"
    by simp
  show ?thesis
    apply (rule exI [of _ ?r])
    using r dup rest' by simp
qed

theorem stopped_frame_moves_lastTime_only_witness:
  "(5 :: real) \<noteq> m_lastTime constructed \<and> \<not> m_running constructed \<and>
   SampleCB cpu_only constructed 5 sample12 =
     Inr \<lparr> hresult = S_OK, after = constructed\<lparr> m_lastTime := 5 \<rparr>,
           logged = [(DEBUG, ''SampleCB called'')], handled = None \<rparr> \<and>
   m_nFrames (constructed\<lparr> m_lastTime := 5 \<rparr>) = 0 \<and>
   SampleCB cpu_only (constructed\<lparr> m_lastTime := 5, m_running := True \<rparr>) 5 sample12 =
     Inr \<lparr> hresult = S_OK, after = constructed\<lparr> m_lastTime := 5, m_running := True \<rparr>,
           logged = [(DEBUG, ''SampleCB called''), (INFO, ''Got double frame'')],
           handled = None \<rparr>"
proof -
  have h1: "(5 :: real) \<noteq> m_lastTime constructed" by (simp add: constructed_def)
  have h2: "\<not> m_running constructed" by (simp add: constructed_def)
  from stopped_frame_moves_lastTime_only [OF h1 h2, where lib = cpu_only and pSample = sample12]
  obtain r where r: "SampleCB cpu_only constructed 5 sample12 = Inr r" "hresult r = S_OK"
    "handled r = None" "after r = constructed\<lparr> m_lastTime := 5 \<rparr>"
    "\<forall>b p. SampleCB cpu_only ((after r)\<lparr> m_running := b \<rparr>) 5 p =
              Inr \<lparr> hresult = S_OK, after = (after r)\<lparr> m_running := b \<rparr>,
                    logged = [(DEBUG, ''SampleCB called''), (INFO, ''Got double frame'')],
                    handled = None \<rparr>"
    by blast
  have "SampleCB cpu_only constructed 5 sample12 =
     Inr \<lparr> hresult = S_OK, after = constructed\<lparr> m_lastTime := 5 \<rparr>,
           logged = [(DEBUG, ''SampleCB called'')], handled = None \<rparr>"
    by (simp add: SampleCB_def constructed_def)
  moreover have "SampleCB cpu_only (constructed\<lparr> m_lastTime := 5, m_running := True \<rparr>) 5 sample12 =
     Inr \<lparr> hresult = S_OK, after = constructed\<lparr> m_lastTime := 5, m_running := True \<rparr>,
           logged = [(DEBUG, ''SampleCB called''), (INFO, ''Got double frame'')],
           handled = None \<rparr>"
    using r(4,5) by simp
  moreover have "m_nFrames (constructed\<lparr> m_lastTime := 5 \<rparr>) = 0" by (simp add: constructed_def)
  ultimately show ?thesis using h1 h2 by simp
qed

end
